theory Spec2Isabelle
  imports Complex_Main
begin

section \<open>The turtle engine of \<open>src/turtle.js\<close>\<close>

text \<open>
  The engine records every command as a snapshot of the turtle's state in a log
  (\<open>this._states\<close>) and replays the log later (\<open>done\<close>). The model below follows
  \<open>src/turtle.js\<close> method by method.

  Numbers. JavaScript numbers are IEEE doubles; the model computes with \<open>real\<close>, so
  rounding error, overflow and the sign of zero are left out. The source never raises
  on arithmetic: a division by zero yields \<open>Infinity\<close> or \<open>NaN\<close> and the
  code carries on. Such values are not reals, so at each place where the source would
  create one the model returns an \<open>escape\<close> value that names it.

  Canvases. The two canvases are only written to (by \<open>_init\<close> and by \<open>done\<close>);
  no command reads them back, apart from the size of the image canvas. The model keeps
  that size and, for \<open>done\<close>, the list of writes.

  The repository holds a second, older copy of the engine (\<open>src/unnamed/part_000\<close>:
  angles in radians, \<open>goto\<close> without tracing, no background colour). The model
  is of \<open>src/turtle.js\<close>; the one method of the older copy that is looked at is
  \<open>speed\<close>.
\<close>

subsection \<open>Numeric helpers\<close>

text \<open>\<open>degToRad(deg) = deg / 180 * Math.PI\<close>.\<close>

definition degToRad :: "real \<Rightarrow> real" where
  "degToRad deg = deg / 180 * pi"

text \<open>\<open>Math.hypot(a, b)\<close>.\<close>

definition hypot :: "real \<Rightarrow> real \<Rightarrow> real" where
  "hypot a b = sqrt (a\<^sup>2 + b\<^sup>2)"

text \<open>
  \<open>Math.atan2(a, b)\<close>: the angle of the point with abscissa \<open>b\<close> and ordinate \<open>a\<close>,
  in \<open>(-\<pi>, \<pi>]\<close>; \<open>Math.atan2(0, 0)\<close> is \<open>0\<close>.
\<close>

definition atan2 :: "real \<Rightarrow> real \<Rightarrow> real" where
  "atan2 a b =
     (if 0 < b then arctan (a / b)
      else if b < 0 then (if 0 \<le> a then arctan (a / b) + pi else arctan (a / b) - pi)
      else if 0 < a then pi / 2
      else if a < 0 then - (pi / 2)
      else 0)"

text \<open>
  \<open>parseFloat(v.toFixed(4))\<close>. \<open>toFixed\<close> works on the absolute value, takes the
  integer \<open>n\<close> with \<open>n / 10\<^sup>4\<close> closest to it (the larger one on a tie) and restores
  the sign; from \<open>10\<^sup>2\<^sup>1\<close> on it prints the number itself.
\<close>

definition toFixed4 :: "real \<Rightarrow> real" where
  "toFixed4 v =
     (if 10 ^ 21 \<le> \<bar>v\<bar> then v
      else sgn v * real_of_int \<lfloor>\<bar>v\<bar> * 10000 + 1 / 2\<rfloor> / 10000)"

subsection \<open>Snapshots and the session\<close>

text \<open>
  The flat state object of \<open>_init\<close>, with the source's keys in the source's order.
\<close>

record snapshot =
  x :: real
  y :: real
  angle :: real
  penDown :: bool
  width :: real
  visible :: bool
  redraw :: bool
  wrap :: bool
  color :: string
  bgcolor :: string
  speed :: real
  clear :: bool
  animateMovement :: bool
  instant :: bool

text \<open>
  A turtle: the log \<open>this._states\<close>, the current state \<open>this._state\<close>, and the size
  of \<open>this._imageCanvas\<close>, which is set in the constructor and never changed
  (\<open>canvas.width\<close> and \<open>canvas.height\<close> are unsigned integers).
\<close>

record session =
  states :: "snapshot list"
  state :: snapshot
  canvasWidth :: nat
  canvasHeight :: nat

text \<open>
  Values the model's number fields cannot hold. The source does not stop at these
  points: \<open>NonFinite\<close> marks a division by zero (the source goes on with
  \<open>Infinity\<close> or \<open>NaN\<close> coordinates), \<open>NonNumeric n\<close> marks a speed that is not
  a number (the source stores the object found under the name \<open>n\<close>).
\<close>

datatype escape = NonFinite | NonNumeric string

text \<open>
  \<open>isDifferent(a, b)\<close>: true when exactly one side is missing, otherwise true as
  soon as one key of \<open>a\<close> has a value in \<open>b\<close> that is not \<open>===\<close>. Every state
  object has the same fourteen keys. On reals, strings and booleans \<open>!==\<close> is
  inequality; \<open>NaN\<close>, which \<open>!==\<close> tells apart from itself, is not a value of
  the model.
\<close>

fun isDifferent :: "snapshot option \<Rightarrow> snapshot option \<Rightarrow> bool" where
  "isDifferent None None = False"
| "isDifferent (Some a) None = True"
| "isDifferent None (Some b) = True"
| "isDifferent (Some a) (Some b) =
     (if x a \<noteq> x b then True
      else if y a \<noteq> y b then True
      else if angle a \<noteq> angle b then True
      else if penDown a \<noteq> penDown b then True
      else if width a \<noteq> width b then True
      else if visible a \<noteq> visible b then True
      else if redraw a \<noteq> redraw b then True
      else if wrap a \<noteq> wrap b then True
      else if color a \<noteq> color b then True
      else if bgcolor a \<noteq> bgcolor b then True
      else if speed a \<noteq> speed b then True
      else if clear a \<noteq> clear b then True
      else if animateMovement a \<noteq> animateMovement b then True
      else if instant a \<noteq> instant b then True
      else False)"

text \<open>
  \<open>_stateHasChanged\<close>: \<open>this._states[this._states.length - 1]\<close> is \<open>undefined\<close> on
  an empty log, and then the answer is true.
\<close>

definition stateHasChanged :: "session \<Rightarrow> bool" where
  "stateHasChanged s =
     (case states s of
        [] \<Rightarrow> True
      | _ \<Rightarrow> isDifferent (Some (last (states s))) (Some (state s)))"

text \<open>\<open>_pushState\<close>: push a copy of the current state if it has changed.\<close>

definition pushState :: "session \<Rightarrow> session" where
  "pushState s =
     (if stateHasChanged s then s\<lparr>states := states s @ [state s]\<rparr> else s)"

text \<open>The state object literal of \<open>_init\<close>; \<open>SPEEDS.normal\<close> is 6.\<close>

definition defaultState :: snapshot where
  "defaultState =
     \<lparr>x = 0, y = 0, angle = 0, penDown = True, width = 1, visible = True,
      redraw = True, wrap = True, color = ''black'', bgcolor = '''', speed = 6,
      clear = False, animateMovement = True, instant = False\<rparr>"

text \<open>\<open>_init\<close>: empty the log, install the default state, push it.\<close>

definition init :: "session \<Rightarrow> session" where
  "init s = pushState (s\<lparr>states := [], state := defaultState\<rparr>)"

text \<open>The turtle a constructor call leaves behind, for a canvas of the given size.\<close>

definition newTurtle :: "nat \<Rightarrow> nat \<Rightarrow> session" where
  "newTurtle w h =
     init \<lparr>states = [], state = defaultState, canvasWidth = w, canvasHeight = h\<rparr>"

subsection \<open>Commands that set one field\<close>

text \<open>\<open>clear()\<close>: raise the flag, push, lower the flag.\<close>

definition clear_cmd :: "session \<Rightarrow> session" where
  "clear_cmd s =
     (let s1 = s\<lparr>state := (state s)\<lparr>clear := True\<rparr>\<rparr>;
          s2 = pushState s1
      in s2\<lparr>state := (state s2)\<lparr>clear := False\<rparr>\<rparr>)"

text \<open>\<open>reset()\<close>: \<open>_init()\<close>, then \<open>clear()\<close>.\<close>

definition reset :: "session \<Rightarrow> session" where
  "reset s = clear_cmd (init s)"

definition wrap_cmd :: "session \<Rightarrow> bool \<Rightarrow> session" where
  "wrap_cmd s b = pushState (s\<lparr>state := (state s)\<lparr>wrap := b\<rparr>\<rparr>)"

definition hideTurtle :: "session \<Rightarrow> session" where
  "hideTurtle s = pushState (s\<lparr>state := (state s)\<lparr>visible := False\<rparr>\<rparr>)"

definition showTurtle :: "session \<Rightarrow> session" where
  "showTurtle s = pushState (s\<lparr>state := (state s)\<lparr>visible := True\<rparr>\<rparr>)"

definition redrawOnMove :: "session \<Rightarrow> bool \<Rightarrow> session" where
  "redrawOnMove s b = pushState (s\<lparr>state := (state s)\<lparr>redraw := b\<rparr>\<rparr>)"

definition penup :: "session \<Rightarrow> session" where
  "penup s = pushState (s\<lparr>state := (state s)\<lparr>penDown := False\<rparr>\<rparr>)"

definition pendown :: "session \<Rightarrow> session" where
  "pendown s = pushState (s\<lparr>state := (state s)\<lparr>penDown := True\<rparr>\<rparr>)"

definition right :: "session \<Rightarrow> real \<Rightarrow> session" where
  "right s a = pushState (s\<lparr>state := (state s)\<lparr>angle := angle (state s) + a\<rparr>\<rparr>)"

definition left :: "session \<Rightarrow> real \<Rightarrow> session" where
  "left s a = pushState (s\<lparr>state := (state s)\<lparr>angle := angle (state s) - a\<rparr>\<rparr>)"

definition setheading :: "session \<Rightarrow> real \<Rightarrow> session" where
  "setheading s a = pushState (s\<lparr>state := (state s)\<lparr>angle := a\<rparr>\<rparr>)"

definition setangle :: "session \<Rightarrow> real \<Rightarrow> session" where
  "setangle s a = setheading s a"

definition width_cmd :: "session \<Rightarrow> real \<Rightarrow> session" where
  "width_cmd s w = pushState (s\<lparr>state := (state s)\<lparr>width := w\<rparr>\<rparr>)"

text \<open>\<open>position()\<close> and \<open>heading()\<close> read the current state.\<close>

definition position :: "session \<Rightarrow> real \<times> real" where
  "position s = (x (state s), y (state s))"

definition heading :: "session \<Rightarrow> real" where
  "heading s = angle (state s)"

subsection \<open>Speed and colour\<close>

text \<open>
  \<open>SPEEDS\<close> is an object literal, so \<open>SPEEDS[name]\<close> finds the five entries of the
  literal and, for any other name, whatever every object inherits from
  \<open>Object.prototype\<close>; a name found nowhere gives \<open>undefined\<close>.
\<close>

datatype jsval = Undefined | Number real | Object string

definition SPEEDS :: "(string \<times> real) list" where
  "SPEEDS =
     [(''fastest'', 0), (''fast'', 10), (''normal'', 6), (''slow'', 3), (''slowest'', 1)]"

definition objectPrototype :: "string list" where
  "objectPrototype =
     [''constructor'', ''hasOwnProperty'', ''isPrototypeOf'', ''propertyIsEnumerable'',
      ''toLocaleString'', ''toString'', ''valueOf'', ''__proto__'',
      ''__defineGetter__'', ''__defineSetter__'', ''__lookupGetter__'',
      ''__lookupSetter__'']"

definition SPEEDS_get :: "string \<Rightarrow> jsval" where
  "SPEEDS_get name =
     (case map_of SPEEDS name of
        Some v \<Rightarrow> Number v
      | None \<Rightarrow> if name \<in> set objectPrototype then Object name else Undefined)"

text \<open>The argument of \<open>speed\<close>: a string, or a number that is stored as it is.\<close>

datatype speedArg = Name string | Code real

definition setSpeed :: "session \<Rightarrow> real \<Rightarrow> session" where
  "setSpeed s v = pushState (s\<lparr>state := (state s)\<lparr>speed := v\<rparr>\<rparr>)"

text \<open>
  \<open>speed(speed)\<close>: a string is looked up in \<open>SPEEDS\<close>, and \<open>undefined\<close> is
  replaced by \<open>SPEEDS.normal\<close>.
\<close>

fun speed_cmd :: "session \<Rightarrow> speedArg \<Rightarrow> escape + session" where
  "speed_cmd s (Code v) = Inr (setSpeed s v)"
| "speed_cmd s (Name n) =
     (case SPEEDS_get n of
        Undefined \<Rightarrow> Inr (setSpeed s 6)
      | Number v \<Rightarrow> Inr (setSpeed s v)
      | Object m \<Rightarrow> Inl (NonNumeric m))"

text \<open>
  The older copy has \<open>speed = SPEEDS[speed] || SPEEDS.normal\<close> in place of the test
  for \<open>undefined\<close>: every falsy value found, the number 0 too, is replaced. (Its state
  has no \<open>bgcolor\<close> key, which \<open>speed\<close> does not touch.)
\<close>

fun speed_part_000 :: "session \<Rightarrow> speedArg \<Rightarrow> escape + session" where
  "speed_part_000 s (Code v) = Inr (setSpeed s v)"
| "speed_part_000 s (Name n) =
     (case SPEEDS_get n of
        Undefined \<Rightarrow> Inr (setSpeed s 6)
      | Number v \<Rightarrow> Inr (setSpeed s (if v = 0 then 6 else v))
      | Object m \<Rightarrow> Inl (NonNumeric m))"

text \<open>\<open>[...args].join(',')\<close>, on arguments already printed as strings.\<close>

fun join :: "string list \<Rightarrow> string" where
  "join [] = []"
| "join [a] = a"
| "join (a # b # bs) = a @ '','' @ join (b # bs)"

text \<open>
  \<open>parseColor(...args)\<close>, called with the declared parameter \<open>c\<close> and any further
  arguments \<open>cs\<close>.
\<close>

definition parseColor :: "string \<Rightarrow> string list \<Rightarrow> string" where
  "parseColor c cs =
     (if length (c # cs) = 3 then ''rgb('' @ join (c # cs) @ '')''
      else if length (c # cs) = 4 then ''rgba('' @ join (c # cs) @ '')''
      else c)"

definition color_cmd :: "session \<Rightarrow> string \<Rightarrow> string list \<Rightarrow> session" where
  "color_cmd s c cs = pushState (s\<lparr>state := (state s)\<lparr>color := parseColor c cs\<rparr>\<rparr>)"

definition bgcolor_cmd :: "session \<Rightarrow> string \<Rightarrow> string list \<Rightarrow> session" where
  "bgcolor_cmd s c cs = pushState (s\<lparr>state := (state s)\<lparr>bgcolor := parseColor c cs\<rparr>\<rparr>)"

subsection \<open>Positions and the boundary tracer\<close>

definition distanceTo :: "snapshot \<Rightarrow> real \<Rightarrow> real \<Rightarrow> real" where
  "distanceTo st px py = hypot (px - x st) (py - y st)"

definition setPos :: "session \<Rightarrow> real \<Rightarrow> real \<Rightarrow> session" where
  "setPos s px py =
     pushState (s\<lparr>state := (state s)\<lparr>x := toFixed4 px, y := toFixed4 py\<rparr>\<rparr>)"

text \<open>\<open>tp(x, y)\<close>: a move that is pushed with \<open>animateMovement\<close> off.\<close>

definition tp :: "session \<Rightarrow> real \<Rightarrow> real \<Rightarrow> session" where
  "tp s px py =
     (let s1 = s\<lparr>state := (state s)\<lparr>animateMovement := False\<rparr>\<rparr>;
          s2 = setPos s1 px py
      in s2\<lparr>state := (state s2)\<lparr>animateMovement := True\<rparr>\<rparr>)"

definition home :: "session \<Rightarrow> session" where
  "home s =
     (let s1 = s\<lparr>state := (state s)\<lparr>instant := True\<rparr>\<rparr>;
          s2 = setheading s1 0;
          s3 = tp s2 0 0
      in s3\<lparr>state := (state s3)\<lparr>instant := False\<rparr>\<rparr>)"

text \<open>
  The variables of the loop in \<open>_moveTo\<close>: the locals \<open>x\<close>, \<open>y\<close> and
  \<open>remainingDistance\<close>, which the three closures update, and the turtle.
\<close>

record trace =
  curX :: real
  curY :: real
  remainingDistance :: real
  turtle :: session

text \<open>
  The closure \<open>xWrap\<close>. The quotient \<open>(cutBound - x) / sinAngle\<close> is not a real
  number when \<open>sinAngle\<close> is zero.
\<close>

definition xWrap :: "real \<Rightarrow> real \<Rightarrow> real \<Rightarrow> real \<Rightarrow> trace \<Rightarrow> escape + trace" where
  "xWrap cosAngle sinAngle cutBound otherBound t =
     (if sinAngle = 0 then Inl NonFinite
      else
        let distanceToEdge = \<bar>(cutBound - curX t) / sinAngle\<bar>;
            edgeY = cosAngle * distanceToEdge + curY t;
            s1 = setPos (turtle t) cutBound edgeY
        in Inr \<lparr>curX = otherBound, curY = edgeY,
                remainingDistance = remainingDistance t - distanceToEdge,
                turtle = tp s1 otherBound edgeY\<rparr>)"

definition yWrap :: "real \<Rightarrow> real \<Rightarrow> real \<Rightarrow> real \<Rightarrow> trace \<Rightarrow> escape + trace" where
  "yWrap cosAngle sinAngle cutBound otherBound t =
     (if cosAngle = 0 then Inl NonFinite
      else
        let distanceToEdge = \<bar>(cutBound - curY t) / cosAngle\<bar>;
            edgeX = sinAngle * distanceToEdge + curX t;
            s1 = setPos (turtle t) edgeX cutBound
        in Inr \<lparr>curX = edgeX, curY = otherBound,
                remainingDistance = remainingDistance t - distanceToEdge,
                turtle = tp s1 edgeX otherBound\<rparr>)"

definition noWrap :: "real \<Rightarrow> real \<Rightarrow> trace \<Rightarrow> trace" where
  "noWrap newX newY t =
     t\<lparr>remainingDistance := 0, turtle := setPos (turtle t) newX newY\<rparr>"

text \<open>One pass through the body of the \<open>while\<close> loop.\<close>

definition moveStep ::
  "real \<Rightarrow> real \<Rightarrow> real \<Rightarrow> real \<Rightarrow> real \<Rightarrow> trace \<Rightarrow> escape + trace" where
  "moveStep maxX minX maxY minY a t =
     (let cosAngle = cos a;
          sinAngle = sin a;
          newX = curX t + sinAngle * remainingDistance t;
          newY = curY t + cosAngle * remainingDistance t
      in if wrap (state (turtle t)) then
           if newX > maxX then xWrap cosAngle sinAngle maxX minX t
           else if newX < minX then xWrap cosAngle sinAngle minX maxX t
           else if newY > maxY then yWrap cosAngle sinAngle maxY minY t
           else if newY < minY then yWrap cosAngle sinAngle minY maxY t
           else Inr (noWrap newX newY t)
         else Inr (noWrap newX newY t))"

text \<open>
  \<open>while (remainingDistance > 0)\<close>. The loop need not end (a canvas of width 0, with
  wrap on, never uses up the distance), so a run that does not return is \<open>None\<close>.
\<close>

partial_function (option) moveLoop ::
  "real \<Rightarrow> real \<Rightarrow> real \<Rightarrow> real \<Rightarrow> real \<Rightarrow> trace \<Rightarrow> (escape + session) option" where
  "moveLoop maxX minX maxY minY a t =
     (if remainingDistance t > 0 then
        (case moveStep maxX minX maxY minY a t of
           Inl e \<Rightarrow> Some (Inl e)
         | Inr t' \<Rightarrow> moveLoop maxX minX maxY minY a t')
      else Some (Inr (turtle t)))"

text \<open>\<open>_moveTo(targetX, targetY)\<close>.\<close>

definition moveTo :: "session \<Rightarrow> real \<Rightarrow> real \<Rightarrow> (escape + session) option" where
  "moveTo s targetX targetY =
     (let maxX = real (canvasWidth s) / 2;
          minX = - real (canvasWidth s) / 2;
          maxY = real (canvasHeight s) / 2;
          minY = - real (canvasHeight s) / 2;
          a = atan2 (targetX - x (state s)) (targetY - y (state s))
      in moveLoop maxX minX maxY minY a
           \<lparr>curX = x (state s), curY = y (state s),
            remainingDistance = distanceTo (state s) targetX targetY,
            turtle = s\<rparr>)"

definition distanceTarget :: "snapshot \<Rightarrow> real \<Rightarrow> real \<times> real" where
  "distanceTarget st distance =
     (let sinAngle = sin (degToRad (angle st));
          cosAngle = cos (degToRad (angle st))
      in (x st + sinAngle * distance, y st + cosAngle * distance))"

definition forward :: "session \<Rightarrow> real \<Rightarrow> (escape + session) option" where
  "forward s distance =
     (let target = distanceTarget (state s) distance
      in moveTo s (fst target) (snd target))"

definition backward :: "session \<Rightarrow> real \<Rightarrow> (escape + session) option" where
  "backward s distance =
     (let target = distanceTarget (state s) (distance * - 1)
      in moveTo s (fst target) (snd target))"

definition goto :: "session \<Rightarrow> real \<Rightarrow> real \<Rightarrow> (escape + session) option" where
  "goto s px py = moveTo s px py"

subsection \<open>Playback\<close>

text \<open>
  What \<open>done\<close> does to the two canvases, in order: the surface is only written
  to, so it is modelled by the list of these writes. \<open>Timeout ms\<close> is one
  \<open>await setTimeoutAsync(fn, ms)\<close>; the events of \<open>fn\<close> follow it.
\<close>

datatype event =
    ClearImage
  | LineWidth real
  | StrokeStyle string
  | BackgroundColor string
  | Draw snapshot
  | Timeout real
  | Segment real real real real bool

text \<open>\<open>_drawIf(state)\<close>.\<close>

definition drawIf :: "snapshot \<Rightarrow> event list" where
  "drawIf st = (if redraw st then [Draw st] else [])"

text \<open>\<open>state.speed ? state.speed * state.speed : 500\<close>.\<close>

definition animationDistance :: "snapshot \<Rightarrow> real" where
  "animationDistance st = (if speed st \<noteq> 0 then speed st * speed st else 500)"

text \<open>
  The inner \<open>while (remainingDistance > 0)\<close> of \<open>done\<close>, from the point
  \<open>(px, py)\<close>, with \<open>lastDrawnState\<close> threaded through. \<open>Segment\<close> is the path from
  \<open>(x, y)\<close> to \<open>(newX, newY)\<close>, stroked if the pen is down.
\<close>

function animate ::
  "snapshot \<Rightarrow> snapshot \<Rightarrow> snapshot option \<Rightarrow> real \<Rightarrow> real \<Rightarrow> real
     \<Rightarrow> event list \<times> snapshot option" where
  "animate st nextState lastDrawnState px py remaining =
     (if remaining > 0 then
        let a = atan2 (x nextState - x st) (y nextState - y st);
            distanceToStop = hypot (px - x nextState) (py - y nextState);
            newX = (if distanceToStop < animationDistance st then x nextState
                    else px + sin a * animationDistance st);
            newY = (if distanceToStop < animationDistance st then y nextState
                    else py + cos a * animationDistance st);
            tempState = st\<lparr>x := newX, y := newY, angle := angle st\<rparr>;
            frame = [Timeout (if speed st = 0 then 0 else 1000 / 60),
                     Segment px py newX newY (penDown st)] @ drawIf tempState;
            rest = animate st nextState (Some tempState) newX newY
                     (remaining - animationDistance st)
        in (frame @ fst rest, snd rest)
      else ([], lastDrawnState))"
  by pat_completeness auto

termination animate
proof (relation "measure (\<lambda>(st, nextState, lastDrawnState, px, py, remaining).
                    nat \<lceil>remaining / animationDistance st\<rceil>)", goal_cases)
  case 1
  show ?case by simp
next
  case (2 st nextState lastDrawnState px py remaining a d nx ny ts fr)
  have d: "0 < animationDistance st"
    by (auto simp: animationDistance_def zero_less_mult_iff)
  have "(remaining - animationDistance st) / animationDistance st
          = remaining / animationDistance st - 1"
    using d by (simp add: field_simps)
  moreover have "0 < remaining / animationDistance st"
    using 2(1) d by simp
  ultimately show ?case
    by simp
qed

text \<open>
  The \<open>for\<close> loop of \<open>done\<close> over the entries of the log: \<open>st\<close> is the entry,
  the head of \<open>rest\<close> is \<open>this._states[i + 1]\<close>. The step delay is \<open>1000 / fps\<close>
  with \<open>fps = 60\<close>. (\<open>state.reset\<close> is not a key of any state.)
\<close>

fun play :: "snapshot option \<Rightarrow> snapshot list \<Rightarrow> event list" where
  "play lastDrawnState [] = []"
| "play lastDrawnState (st # rest) =
     (let styles = (if clear st then [ClearImage] else [])
                     @ [LineWidth (width st), StrokeStyle (color st),
                        BackgroundColor (bgcolor st)];
          changed = isDifferent lastDrawnState (Some st);
          drawn = (if changed then
                     drawIf st
                       @ (if \<not> instant st \<and> speed st > 0 then [Timeout (1000 / 60)] else [])
                   else []);
          lastDrawn1 = (if changed then Some st else lastDrawnState);
          moved = (case rest of
                     [] \<Rightarrow> ([], lastDrawn1)
                   | nextState # _ \<Rightarrow>
                       if animateMovement nextState
                          \<and> (x nextState \<noteq> x st \<or> y nextState \<noteq> y st)
                       then animate st nextState lastDrawn1 (x st) (y st)
                              (hypot (x st - x nextState) (y st - y nextState))
                       else ([], lastDrawn1))
      in styles @ drawn @ fst moved @ play (snd moved) rest)"

text \<open>\<open>done()\<close>: replay the log, then \<open>this._states = []\<close>.\<close>

definition done_cmd :: "session \<Rightarrow> event list \<times> session" where
  "done_cmd s = (play None (states s), s\<lparr>states := []\<rparr>)"

subsection \<open>The command layer as a whole\<close>

text \<open>
  The public methods that change the turtle, \<open>done\<close> among them. \<open>random\<close> only
  returns a number and \<open>repeat\<close> only calls its callback, so neither is a command
  of its own.
\<close>

datatype command =
    Forward real
  | Backward real
  | Goto real real
  | Tp real real
  | Home
  | Setheading real
  | Setangle real
  | Right real
  | Left real
  | Penup
  | Pendown
  | Width real
  | Color string "string list"
  | Bgcolor string "string list"
  | Wrap bool
  | HideTurtle
  | ShowTurtle
  | RedrawOnMove bool
  | Speed speedArg
  | Clear
  | Reset
  | Done

fun exec :: "session \<Rightarrow> command \<Rightarrow> (escape + session) option" where
  "exec s (Forward d) = forward s d"
| "exec s (Backward d) = backward s d"
| "exec s (Goto px py) = goto s px py"
| "exec s (Tp px py) = Some (Inr (tp s px py))"
| "exec s Home = Some (Inr (home s))"
| "exec s (Setheading a) = Some (Inr (setheading s a))"
| "exec s (Setangle a) = Some (Inr (setangle s a))"
| "exec s (Right a) = Some (Inr (right s a))"
| "exec s (Left a) = Some (Inr (left s a))"
| "exec s Penup = Some (Inr (penup s))"
| "exec s Pendown = Some (Inr (pendown s))"
| "exec s (Width w) = Some (Inr (width_cmd s w))"
| "exec s (Color c cs) = Some (Inr (color_cmd s c cs))"
| "exec s (Bgcolor c cs) = Some (Inr (bgcolor_cmd s c cs))"
| "exec s (Wrap b) = Some (Inr (wrap_cmd s b))"
| "exec s HideTurtle = Some (Inr (hideTurtle s))"
| "exec s ShowTurtle = Some (Inr (showTurtle s))"
| "exec s (RedrawOnMove b) = Some (Inr (redrawOnMove s b))"
| "exec s (Speed v) = Some (speed_cmd s v)"
| "exec s Clear = Some (Inr (clear_cmd s))"
| "exec s Reset = Some (Inr (reset s))"
| "exec s Done = Some (Inr (snd (done_cmd s)))"

text \<open>A script: commands one after the other, up to the first that does not return.\<close>

fun run :: "session \<Rightarrow> command list \<Rightarrow> (escape + session) option" where
  "run s [] = Some (Inr s)"
| "run s (c # cs) =
     (case exec s c of
        None \<Rightarrow> None
      | Some (Inl e) \<Rightarrow> Some (Inl e)
      | Some (Inr s') \<Rightarrow> run s' cs)"

subsection \<open>Predicates used in the proofs\<close>

text \<open>
  The log's last entry records the position of the current state (or the log is empty).
\<close>

definition synced :: "session \<Rightarrow> bool" where
  "synced s \<longleftrightarrow>
     states s = []
     \<or> x (last (states s)) = x (state s) \<and> y (last (states s)) = y (state s)"

text \<open>
  What the loop keeps true: a move parallel to the Y axis (\<open>sin a = 0\<close>) stays between
  the X bounds, one parallel to the X axis (\<open>cos a = 0\<close>) between the Y bounds.
\<close>

definition axisInside :: "real \<Rightarrow> real \<Rightarrow> real \<Rightarrow> real \<Rightarrow> real \<Rightarrow> trace \<Rightarrow> bool" where
  "axisInside maxX minX maxY minY a t \<longleftrightarrow>
     (sin a = 0 \<longrightarrow> minX \<le> curX t \<and> curX t \<le> maxX)
     \<and> (cos a = 0 \<longrightarrow> minY \<le> curY t \<and> curY t \<le> maxY)"

text \<open>
  The turtle still has the heading \<open>a\<close>, and the log is \<open>old\<close> followed by snapshots
  that all carry the heading \<open>a\<close>.
\<close>

definition headingKept :: "real \<Rightarrow> snapshot list \<Rightarrow> session \<Rightarrow> bool" where
  "headingKept a old s \<longleftrightarrow>
     angle (state s) = a
     \<and> (\<exists>new. states s = old @ new \<and> (\<forall>st \<in> set new. angle st = a))"

text \<open>Two turtles at the same place with the same wrap flag, whatever else differs.\<close>

definition samePlace :: "session \<Rightarrow> session \<Rightarrow> bool" where
  "samePlace s u \<longleftrightarrow>
     x (state s) = x (state u) \<and> y (state s) = y (state u)
     \<and> wrap (state s) = wrap (state u)"

definition sameTrace :: "trace \<Rightarrow> trace \<Rightarrow> bool" where
  "sameTrace t u \<longleftrightarrow>
     curX t = curX u \<and> curY t = curY u \<and> remainingDistance t = remainingDistance u
     \<and> samePlace (turtle t) (turtle u)"


section \<open>Properties\<close>

subsection \<open>The log and \<open>_pushState\<close>\<close>

lemma isDifferent_iff: "isDifferent (Some a) (Some b) \<longleftrightarrow> a \<noteq> b"
  by (cases a, cases b) auto

lemma pushState_eq:
  "pushState s =
     (if states s = [] \<or> last (states s) \<noteq> state s
      then s\<lparr>states := states s @ [state s]\<rparr> else s)"
  by (cases "states s")
     (simp_all add: pushState_def stateHasChanged_def isDifferent_iff del: isDifferent.simps)

lemma state_pushState [simp]: "state (pushState s) = state s"
  by (simp add: pushState_eq)

lemma canvas_pushState [simp]:
  "canvasWidth (pushState s) = canvasWidth s"
  "canvasHeight (pushState s) = canvasHeight s"
  by (simp_all add: pushState_eq)

subsection \<open>Running the loop of \<open>_moveTo\<close>\<close>

lemma moveLoop_finished:
  "remainingDistance t \<le> 0 \<Longrightarrow> moveLoop maxX minX maxY minY a t = Some (Inr (turtle t))"
  by (subst moveLoop.simps) simp

lemma moveLoop_step:
  "0 < remainingDistance t \<Longrightarrow> moveStep maxX minX maxY minY a t = Inr t'
     \<Longrightarrow> moveLoop maxX minX maxY minY a t = moveLoop maxX minX maxY minY a t'"
  by (subst moveLoop.simps) simp

lemma moveLoop_escape:
  "0 < remainingDistance t \<Longrightarrow> moveStep maxX minX maxY minY a t = Inl e
     \<Longrightarrow> moveLoop maxX minX maxY minY a t = Some (Inl e)"
  by (subst moveLoop.simps) simp

text \<open>
  The turtle changes only through \<open>_setPos\<close> and \<open>tp\<close>: a property of the turtle
  that both keep holds when the move returns.
\<close>

lemma moveStep_invariant:
  assumes "moveStep maxX minX maxY minY a t = Inr t'"
    and "Q (turtle t)"
    and "\<And>s px py. Q s \<Longrightarrow> Q (setPos s px py)"
    and "\<And>s px py. Q s \<Longrightarrow> Q (tp s px py)"
  shows "Q (turtle t')"
proof -
  have sp: "Q (setPos (turtle t) px py)" for px py
    by (rule assms(3), rule assms(2))
  have "Q (tp (setPos (turtle t) px py) qx qy)" for px py qx qy
    by (rule assms(4), rule sp)
  with sp assms(1) show ?thesis
    by (auto simp: moveStep_def xWrap_def yWrap_def noWrap_def Let_def split: if_splits)
qed

lemma moveLoop_invariant:
  "moveLoop maxX minX maxY minY a t = Some r \<Longrightarrow>
     (\<forall>s px py. Q s \<longrightarrow> Q (setPos s px py)) \<longrightarrow> (\<forall>s px py. Q s \<longrightarrow> Q (tp s px py))
       \<longrightarrow> Q (turtle t) \<longrightarrow> (\<forall>s'. r = Inr s' \<longrightarrow> Q s')"
proof (induction rule: moveLoop.raw_induct [rotated 1, consumes 1])
  case (1 f maxX minX maxY minY a t r)
  show ?case
  proof (intro impI)
    assume sp: "\<forall>s px py. Q s \<longrightarrow> Q (setPos s px py)"
      and tp: "\<forall>s px py. Q s \<longrightarrow> Q (tp s px py)"
      and q: "Q (turtle t)"
    show "\<forall>s'. r = Inr s' \<longrightarrow> Q s'"
    proof (cases "0 < remainingDistance t")
      case False
      with 1(2) q show ?thesis by auto
    next
      case True
      show ?thesis
      proof (cases "moveStep maxX minX maxY minY a t")
        case (Inl e)
        with True 1(2) show ?thesis by auto
      next
        case (Inr t')
        with True 1(2) have "f maxX minX maxY minY a t' = Some r" by simp
        moreover have "Q (turtle t')"
          by (rule moveStep_invariant [where Q = Q, OF Inr q]) (use sp tp in blast)+
        ultimately show ?thesis using 1(1) sp tp by blast
      qed
    qed
  qed
qed

lemma moveTo_invariant:
  assumes "moveTo s tx ty = Some (Inr s')"
    and "Q s"
    and "\<And>s px py. Q s \<Longrightarrow> Q (setPos s px py)"
    and "\<And>s px py. Q s \<Longrightarrow> Q (tp s px py)"
  shows "Q s'"
proof -
  let ?t = "\<lparr>curX = x (state s), curY = y (state s),
            remainingDistance = distanceTo (state s) tx ty, turtle = s\<rparr>"
  have "Q (turtle ?t)" using assms(2) by simp
  with moveLoop_invariant [where Q = Q and t = ?t, OF assms(1) [unfolded moveTo_def Let_def]]
    assms(3,4)
  show ?thesis by blast
qed

subsection \<open>No adjacent duplicates in the log\<close>

lemma distinct_adj_pushState:
  "distinct_adj (states s) \<Longrightarrow> distinct_adj (states (pushState s))"
  by (auto simp: pushState_eq distinct_adj_append_iff)

lemma distinct_adj_setPos:
  "distinct_adj (states s) \<Longrightarrow> distinct_adj (states (setPos s px py))"
  by (simp add: setPos_def distinct_adj_pushState)

lemma distinct_adj_tp:
  "distinct_adj (states s) \<Longrightarrow> distinct_adj (states (tp s px py))"
  by (simp add: tp_def Let_def distinct_adj_setPos)

lemma distinct_adj_moveTo:
  "moveTo s tx ty = Some (Inr s') \<Longrightarrow> distinct_adj (states s) \<Longrightarrow> distinct_adj (states s')"
  by (erule moveTo_invariant [where Q = "\<lambda>s. distinct_adj (states s)"])
     (simp_all add: distinct_adj_setPos distinct_adj_tp)

lemma distinct_adj_exec:
  "exec s c = Some (Inr s') \<Longrightarrow> distinct_adj (states s) \<Longrightarrow> distinct_adj (states s')"
proof (cases c)
  case (Speed v)
  assume "exec s c = Some (Inr s')" "distinct_adj (states s)"
  with Speed show ?thesis
    by (cases v) (auto simp: setSpeed_def distinct_adj_pushState split: jsval.splits)
qed (auto simp: forward_def backward_def goto_def Let_def home_def setheading_def
          setangle_def right_def left_def penup_def pendown_def width_cmd_def
          color_cmd_def bgcolor_cmd_def wrap_cmd_def hideTurtle_def showTurtle_def
          redrawOnMove_def clear_cmd_def reset_def init_def done_cmd_def
          distinct_adj_pushState distinct_adj_tp
        dest: distinct_adj_moveTo)

lemma distinct_adj_run:
  "run s cs = Some (Inr s') \<Longrightarrow> distinct_adj (states s) \<Longrightarrow> distinct_adj (states s')"
proof (induction cs arbitrary: s)
  case Nil
  then show ?case by simp
next
  case (Cons c cs)
  then show ?case
    by (auto split: option.splits sum.splits dest: distinct_adj_exec)
qed

lemma distinct_adj_newTurtle: "distinct_adj (states (newTurtle w h))"
  by (simp add: newTurtle_def init_def distinct_adj_pushState)

text \<open>
  C1. \<open>_pushState\<close> appends a copy of the current state exactly when the log is
  empty or the state differs from the log's last entry, whether or not an equal
  snapshot lies further back. So the log of a new turtle has no two adjacent equal
  snapshots, and no script of commands, playback included, can produce one.
\<close>

theorem log_dedup:
  "pushState s =
     (if states s = [] \<or> last (states s) \<noteq> state s
      then s\<lparr>states := states s @ [state s]\<rparr> else s)
   \<and> distinct_adj (states (newTurtle w h))
   \<and> (distinct_adj (states s) \<longrightarrow>
        (\<forall>cs s'. run s cs = Some (Inr s') \<longrightarrow> distinct_adj (states s')))"
  using pushState_eq distinct_adj_newTurtle distinct_adj_run by blast

theorem log_dedup_witness:
  "run (newTurtle 800 600) [Penup, Penup, Pendown, Penup] =
     Some (Inr \<lparr>states = [defaultState, defaultState\<lparr>penDown := False\<rparr>, defaultState,
                         defaultState\<lparr>penDown := False\<rparr>],
                state = defaultState\<lparr>penDown := False\<rparr>,
                canvasWidth = 800, canvasHeight = 600\<rparr>)
   \<and> distinct_adj [defaultState, defaultState\<lparr>penDown := False\<rparr>, defaultState,
                   defaultState\<lparr>penDown := False\<rparr>]"
proof -
  have r: "run (newTurtle 800 600) [Penup, Penup, Pendown, Penup] =
     Some (Inr \<lparr>states = [defaultState, defaultState\<lparr>penDown := False\<rparr>, defaultState,
                         defaultState\<lparr>penDown := False\<rparr>],
                state = defaultState\<lparr>penDown := False\<rparr>,
                canvasWidth = 800, canvasHeight = 600\<rparr>)"
    by (simp add: newTurtle_def init_def penup_def pendown_def pushState_eq defaultState_def)
  from log_dedup [of "newTurtle 800 600" 800 600] r show ?thesis
    by (metis session.select_convs(1))
qed

subsection \<open>The state between two commands\<close>

text \<open>
  After any command the last entry of the log, if there is one, records the position
  of the current state, and \<open>animateMovement\<close> is on again: both hold for a new
  turtle and are kept by every script.
\<close>

lemma synced_pushState: "synced (pushState s)"
  by (simp add: synced_def pushState_eq)

lemma synced_flags:
  "synced s \<Longrightarrow> x st = x (state s) \<Longrightarrow> y st = y (state s) \<Longrightarrow> synced (s\<lparr>state := st\<rparr>)"
  by (simp add: synced_def)

lemma synced_setPos: "synced (setPos s px py)"
  by (simp add: setPos_def synced_pushState)

lemma synced_tp: "synced (tp s px py)"
  unfolding tp_def Let_def
  by (rule synced_flags) (simp_all add: synced_setPos)

lemma synced_moveTo:
  "moveTo s tx ty = Some (Inr s') \<Longrightarrow> synced s \<Longrightarrow> synced s'"
  by (erule moveTo_invariant [where Q = synced]) (simp_all add: synced_setPos synced_tp)

lemma synced_exec:
  assumes "exec s c = Some (Inr s')" "synced s"
  shows "synced s'"
proof (cases c)
  case (Speed v)
  with assms show ?thesis
    by (cases v) (auto simp: setSpeed_def synced_pushState split: jsval.splits)
next
  case Home
  have "synced (home s)"
    unfolding home_def Let_def
    by (rule synced_flags) (simp_all add: synced_tp)
  with Home assms show ?thesis by simp
next
  case Clear
  have "synced (clear_cmd s)"
    unfolding clear_cmd_def Let_def
    by (rule synced_flags) (simp_all add: synced_pushState)
  with Clear assms show ?thesis by simp
next
  case Reset
  have "synced (reset s)"
    unfolding reset_def clear_cmd_def Let_def
    by (rule synced_flags) (simp_all add: synced_pushState)
  with Reset assms show ?thesis by simp
next
  case Done
  with assms show ?thesis by (auto simp: done_cmd_def synced_def)
qed (use assms in \<open>auto simp: forward_def backward_def goto_def Let_def setheading_def
          setangle_def right_def left_def penup_def pendown_def width_cmd_def
          color_cmd_def bgcolor_cmd_def wrap_cmd_def hideTurtle_def showTurtle_def
          redrawOnMove_def synced_pushState synced_tp
        dest: synced_moveTo\<close>)

lemma synced_run:
  "run s cs = Some (Inr s') \<Longrightarrow> synced s \<Longrightarrow> synced s'"
proof (induction cs arbitrary: s)
  case Nil
  then show ?case by simp
next
  case (Cons c cs)
  then show ?case
    by (auto split: option.splits sum.splits dest: synced_exec)
qed

lemma synced_newTurtle: "synced (newTurtle w h)"
  by (simp add: newTurtle_def init_def synced_pushState)

lemma animateMovement_moveTo:
  "moveTo s tx ty = Some (Inr s') \<Longrightarrow> animateMovement (state s)
     \<Longrightarrow> animateMovement (state s')"
  by (erule moveTo_invariant [where Q = "\<lambda>s. animateMovement (state s)"])
     (simp_all add: setPos_def tp_def Let_def)

lemma animateMovement_exec:
  assumes "exec s c = Some (Inr s')" "animateMovement (state s)"
  shows "animateMovement (state s')"
proof (cases c)
  case (Speed v)
  with assms show ?thesis
    by (cases v) (auto simp: setSpeed_def split: jsval.splits)
qed (use assms in \<open>auto simp: forward_def backward_def goto_def Let_def home_def
          setheading_def setangle_def right_def left_def penup_def pendown_def
          width_cmd_def color_cmd_def bgcolor_cmd_def wrap_cmd_def hideTurtle_def
          showTurtle_def redrawOnMove_def clear_cmd_def reset_def init_def done_cmd_def
          tp_def setPos_def defaultState_def
        dest: animateMovement_moveTo\<close>)

lemma animateMovement_run:
  "run s cs = Some (Inr s') \<Longrightarrow> animateMovement (state s) \<Longrightarrow> animateMovement (state s')"
proof (induction cs arbitrary: s)
  case Nil
  then show ?case by simp
next
  case (Cons c cs)
  then show ?case
    by (auto split: option.splits sum.splits dest: animateMovement_exec)
qed

subsection \<open>Bearings and rounding\<close>

lemma hypot_pos: "a \<noteq> 0 \<or> b \<noteq> 0 \<Longrightarrow> 0 < hypot a b"
  unfolding hypot_def by (auto simp: sum_power2_gt_zero_iff)

lemma sqrt_one_plus_quot:
  assumes "b \<noteq> 0"
  shows "sqrt (1 + (a / b)\<^sup>2) = hypot a b / \<bar>b\<bar>"
proof -
  have "1 + (a / b)\<^sup>2 = (a\<^sup>2 + b\<^sup>2) / b\<^sup>2"
    using assms by (simp add: field_simps power_divide)
  then show ?thesis
    by (simp add: hypot_def real_sqrt_divide)
qed

lemma sin_atan2:
  assumes "a \<noteq> 0 \<or> b \<noteq> 0"
  shows "sin (atan2 a b) = a / hypot a b"
proof -
  have h: "0 < hypot a b" using assms by (rule hypot_pos)
  consider "0 < b" | "b < 0" | "b = 0" "0 < a" | "b = 0" "a < 0"
    using assms by fastforce
  then show ?thesis
  proof cases
    case 1
    then show ?thesis using h
      by (simp add: atan2_def sin_arctan sqrt_one_plus_quot)
  next
    case 2
    then show ?thesis using h
      by (simp add: atan2_def sin_arctan sqrt_one_plus_quot sin_add sin_diff)
  next
    case 3
    then show ?thesis by (simp add: atan2_def hypot_def)
  next
    case 4
    then show ?thesis by (simp add: atan2_def hypot_def)
  qed
qed

lemma cos_atan2:
  assumes "a \<noteq> 0 \<or> b \<noteq> 0"
  shows "cos (atan2 a b) = b / hypot a b"
proof -
  have h: "0 < hypot a b" using assms by (rule hypot_pos)
  consider "0 < b" | "b < 0" | "b = 0" "0 < a" | "b = 0" "a < 0"
    using assms by fastforce
  then show ?thesis
  proof cases
    case 1
    then show ?thesis using h
      by (simp add: atan2_def cos_arctan sqrt_one_plus_quot)
  next
    case 2
    then show ?thesis using h
      by (simp add: atan2_def cos_arctan sqrt_one_plus_quot cos_add cos_diff)
  next
    case 3
    then show ?thesis by (simp add: atan2_def hypot_def)
  next
    case 4
    then show ?thesis by (simp add: atan2_def hypot_def)
  qed
qed

text \<open>Travelling the whole distance along the bearing reaches the target.\<close>

lemma bearing_reaches:
  assumes "a \<noteq> 0 \<or> b \<noteq> 0"
  shows "sin (atan2 a b) * hypot a b = a" "cos (atan2 a b) * hypot a b = b"
  using hypot_pos [OF assms] by (simp_all add: sin_atan2 [OF assms] cos_atan2 [OF assms])

lemma toFixed4_0 [simp]: "toFixed4 0 = 0"
  by (simp add: toFixed4_def)

lemma toFixed4_half: "toFixed4 (real n / 2) = real n / 2"
proof -
  have "\<lfloor>real n / 2 * 10000 + 1 / 2\<rfloor> = 5000 * int n"
    by (simp add: floor_unique)
  then show ?thesis
    by (simp add: toFixed4_def sgn_if)
qed

lemma toFixed4_minus: "toFixed4 (- v) = - toFixed4 v"
  by (simp add: toFixed4_def sgn_if)

subsection \<open>Moves of distance zero\<close>

lemma hypot_zero_iff: "hypot a b = 0 \<longleftrightarrow> a = 0 \<and> b = 0"
  by (simp add: hypot_def sum_power2_eq_zero_iff)

text \<open>
  C5. A move whose target is at distance zero from the current position returns with
  the turtle as it was: the loop guard fails at once, so the body never runs and
  nothing is pushed. \<open>forward(0)\<close> and \<open>backward(0)\<close> are such moves.
\<close>

theorem zero_distance_noop:
  "(distanceTo (state s) tx ty = 0 \<longrightarrow>
      moveTo s tx ty = Some (Inr s) \<and> goto s tx ty = Some (Inr s))
   \<and> forward s 0 = Some (Inr s)
   \<and> backward s 0 = Some (Inr s)"
proof -
  have z: "moveTo s px py = Some (Inr s)" if "distanceTo (state s) px py = 0" for px py
    using that by (simp add: moveTo_def Let_def moveLoop_finished)
  have "distanceTo (state s) (x (state s)) (y (state s)) = 0"
    by (simp add: distanceTo_def hypot_def)
  then have "forward s 0 = Some (Inr s)" "backward s 0 = Some (Inr s)"
    by (simp_all add: forward_def backward_def distanceTarget_def Let_def z)
  with z show ?thesis by (simp add: goto_def)
qed

theorem zero_distance_noop_witness:
  "distanceTo (state (newTurtle 800 600)) 0 0 = 0
   \<and> goto (newTurtle 800 600) 0 0 = Some (Inr (newTurtle 800 600))
   \<and> forward (newTurtle 800 600) 0 = Some (Inr (newTurtle 800 600))"
proof -
  have h: "distanceTo (state (newTurtle 800 600)) 0 0 = 0"
    by (simp add: distanceTo_def hypot_def newTurtle_def init_def defaultState_def)
  show ?thesis using h zero_distance_noop [of "newTurtle 800 600" 0 0] by simp
qed

subsection \<open>Moves without wrap\<close>

lemma moveTo_noWrap:
  assumes nw: "\<not> wrap (state s)"
    and ne: "tx \<noteq> x (state s) \<or> ty \<noteq> y (state s)"
  shows "moveTo s tx ty = Some (Inr (setPos s tx ty))"
proof -
  define a where "a = atan2 (tx - x (state s)) (ty - y (state s))"
  define t where "t = \<lparr>curX = x (state s), curY = y (state s),
                       remainingDistance = distanceTo (state s) tx ty, turtle = s\<rparr>"
  have ne': "tx - x (state s) \<noteq> 0 \<or> ty - y (state s) \<noteq> 0" using ne by simp
  have pos: "0 < remainingDistance t"
    using hypot_pos [OF ne'] by (simp add: t_def distanceTo_def)
  have step: "moveStep maxX minX maxY minY a t
                = Inr (t\<lparr>remainingDistance := 0, turtle := setPos s tx ty\<rparr>)"
    for maxX minX maxY minY
    using nw bearing_reaches [OF ne']
    by (simp add: moveStep_def Let_def noWrap_def t_def a_def distanceTo_def)
  show ?thesis
    unfolding moveTo_def Let_def a_def [symmetric] t_def [symmetric]
    by (simp add: moveLoop_step [OF pos step] moveLoop_finished)
qed

lemma distanceTarget_same_iff:
  "distanceTarget st d = (x st, y st) \<longleftrightarrow> d = 0"
proof
  assume "distanceTarget st d = (x st, y st)"
  then have "sin (degToRad (angle st)) * d = 0" "cos (degToRad (angle st)) * d = 0"
    by (simp_all add: distanceTarget_def Let_def)
  then show "d = 0"
    using sin_zero_abs_cos_one [of "degToRad (angle st)"] by auto
qed (simp add: distanceTarget_def)

text \<open>
  C4 (as amended). With wrap off, on a canvas of any size, a move command whose target
  is not the current position calls \<open>_setPos\<close> once, with the literal target: the
  position becomes the target rounded to 4 decimals, and one snapshot is pushed
  unless the new state equals the log's last entry. A move to the current position
  (\<open>forward(0)\<close>, \<open>backward(0)\<close>, \<open>goto\<close> to where the turtle is) pushes nothing.
\<close>

theorem noWrap_move:
  assumes "\<not> wrap (state s)"
  shows "goto s px py =
           Some (Inr (if px = x (state s) \<and> py = y (state s) then s else setPos s px py))
       \<and> forward s d =
           Some (Inr (if d = 0 then s
                      else setPos s (fst (distanceTarget (state s) d))
                                    (snd (distanceTarget (state s) d))))
       \<and> backward s d =
           Some (Inr (if d = 0 then s
                      else setPos s (fst (distanceTarget (state s) (- d)))
                                    (snd (distanceTarget (state s) (- d)))))
       \<and> state (setPos s px py) = (state s)\<lparr>x := toFixed4 px, y := toFixed4 py\<rparr>
       \<and> states (setPos s px py) =
           (if states s = [] \<or> last (states s) \<noteq> (state s)\<lparr>x := toFixed4 px, y := toFixed4 py\<rparr>
            then states s @ [(state s)\<lparr>x := toFixed4 px, y := toFixed4 py\<rparr>]
            else states s)"
proof -
  have mv: "moveTo s tx ty =
              Some (Inr (if tx = x (state s) \<and> ty = y (state s) then s else setPos s tx ty))"
    for tx ty
  proof (cases "tx = x (state s) \<and> ty = y (state s)")
    case True
    then have "distanceTo (state s) tx ty = 0"
      by (simp add: distanceTo_def hypot_def)
    then show ?thesis using True
      by (simp add: moveTo_def Let_def moveLoop_finished)
  next
    case False
    then show ?thesis using moveTo_noWrap [OF assms, of tx ty] by auto
  qed
  have same: "(fst (distanceTarget (state s) e) = x (state s)
                \<and> snd (distanceTarget (state s) e) = y (state s)) \<longleftrightarrow> e = 0" for e
    using distanceTarget_same_iff [of "state s" e] by (auto simp: prod_eq_iff)
  have g: "goto s px py =
           Some (Inr (if px = x (state s) \<and> py = y (state s) then s else setPos s px py))"
    by (simp only: goto_def mv)
  have f: "forward s d =
           Some (Inr (if d = 0 then s
                      else setPos s (fst (distanceTarget (state s) d))
                                    (snd (distanceTarget (state s) d))))"
    by (simp only: forward_def Let_def mv same)
  have b: "backward s d =
           Some (Inr (if d = 0 then s
                      else setPos s (fst (distanceTarget (state s) (- d)))
                                    (snd (distanceTarget (state s) (- d)))))"
    by (simp add: backward_def Let_def mv same)
  have p: "state (setPos s px py) = (state s)\<lparr>x := toFixed4 px, y := toFixed4 py\<rparr>"
    by (simp add: setPos_def)
  have l: "states (setPos s px py) =
           (if states s = [] \<or> last (states s) \<noteq> (state s)\<lparr>x := toFixed4 px, y := toFixed4 py\<rparr>
            then states s @ [(state s)\<lparr>x := toFixed4 px, y := toFixed4 py\<rparr>]
            else states s)"
    by (simp add: setPos_def pushState_eq)
  from g f b p l show ?thesis by blast
qed

text \<open>
  The claim as written asks for exactly one snapshot for every move; \<open>forward(0)\<close>
  with wrap off leaves the log as it was.
\<close>

theorem noWrap_move_counterexample:
  "forward (wrap_cmd (newTurtle 800 600) False) 0 = Some (Inr (wrap_cmd (newTurtle 800 600) False))"
  by (simp add: forward_def distanceTarget_def Let_def moveTo_def distanceTo_def hypot_def
        moveLoop_finished)

theorem noWrap_move_witness:
  "\<not> wrap (state (wrap_cmd (newTurtle 800 600) False))
   \<and> goto (wrap_cmd (newTurtle 800 600) False) 1000 0
       = Some (Inr (setPos (wrap_cmd (newTurtle 800 600) False) 1000 0))
   \<and> states (setPos (wrap_cmd (newTurtle 800 600) False) 1000 0)
       = [defaultState, defaultState\<lparr>wrap := False\<rparr>,
          defaultState\<lparr>wrap := False, x := 1000\<rparr>]"
proof -
  have h: "\<not> wrap (state (wrap_cmd (newTurtle 800 600) False))"
    by (simp add: wrap_cmd_def)
  have t: "toFixed4 1000 = 1000"
    using toFixed4_half [of 2000] by simp
  have s: "wrap_cmd (newTurtle 800 600) False =
        \<lparr>states = [defaultState, defaultState\<lparr>wrap := False\<rparr>],
         state = defaultState\<lparr>wrap := False\<rparr>, canvasWidth = 800, canvasHeight = 600\<rparr>"
    by (simp add: wrap_cmd_def newTurtle_def init_def pushState_eq defaultState_def)
  from noWrap_move [OF h, of 1000 0] h show ?thesis
    by (simp add: s t defaultState_def)
qed

subsection \<open>Wrapping along the X axis\<close>

lemma atan2_east: "0 < a \<Longrightarrow> atan2 a 0 = pi / 2"
  by (simp add: atan2_def)

lemma hypot_axis: "hypot a 0 = \<bar>a\<bar>"
  by (simp add: hypot_def)

lemma setPos_moved:
  assumes "states s = [] \<or> x (last (states s)) \<noteq> toFixed4 px"
  shows "setPos s px py =
           s\<lparr>states := states s @ [(state s)\<lparr>x := toFixed4 px, y := toFixed4 py\<rparr>],
             state := (state s)\<lparr>x := toFixed4 px, y := toFixed4 py\<rparr>\<rparr>"
  using assms by (auto simp: setPos_def pushState_eq)

lemma tp_moved:
  assumes "states s = [] \<or> x (last (states s)) \<noteq> toFixed4 px"
  shows "tp s px py =
           s\<lparr>states := states s @ [(state s)\<lparr>x := toFixed4 px, y := toFixed4 py,
                                               animateMovement := False\<rparr>],
             state := (state s)\<lparr>x := toFixed4 px, y := toFixed4 py,
                                 animateMovement := True\<rparr>\<rparr>"
  using assms by (auto simp: tp_def Let_def setPos_def pushState_eq)

lemma moveStep_east:
  assumes "wrap (state (turtle t))" "maxX < curX t + remainingDistance t"
  shows "moveStep maxX minX maxY minY (pi / 2) t =
           Inr \<lparr>curX = minX, curY = curY t,
                remainingDistance = remainingDistance t - \<bar>maxX - curX t\<bar>,
                turtle = tp (setPos (turtle t) maxX (curY t)) minX (curY t)\<rparr>"
  using assms by (simp add: moveStep_def xWrap_def Let_def)

lemma moveStep_east_inside:
  assumes "minX \<le> curX t + remainingDistance t" "curX t + remainingDistance t \<le> maxX"
    "minY \<le> curY t" "curY t \<le> maxY"
  shows "moveStep maxX minX maxY minY (pi / 2) t =
           Inr (t\<lparr>remainingDistance := 0,
                  turtle := setPos (turtle t) (curX t + remainingDistance t) (curY t)\<rparr>)"
  using assms by (simp add: moveStep_def noWrap_def Let_def)

text \<open>A run used as an example below: a turtle facing 30 degrees goes to \<open>(100, 0)\<close>.\<close>

lemma goto_example:
  "goto (right (newTurtle 800 600) 30) 100 0 =
     Some (Inr \<lparr>states = [defaultState, defaultState\<lparr>angle := 30\<rparr>,
                         defaultState\<lparr>angle := 30, x := 100\<rparr>],
                state = defaultState\<lparr>angle := 30, x := 100\<rparr>,
                canvasWidth = 800, canvasHeight = 600\<rparr>)"
proof -
  let ?s = "\<lparr>states = [defaultState, defaultState\<lparr>angle := 30\<rparr>],
            state = defaultState\<lparr>angle := 30\<rparr>,
            canvasWidth = 800, canvasHeight = 600\<rparr>"
  let ?t = "\<lparr>curX = 0, curY = 0, remainingDistance = 100, turtle = ?s\<rparr>"
  have s: "right (newTurtle 800 600) 30 = ?s"
    by (simp add: right_def newTurtle_def init_def pushState_eq defaultState_def)
  have r: "toFixed4 100 = 100"
    using toFixed4_half [of 200] by simp
  have step: "moveStep 400 (- 400) 300 (- 300) (pi / 2) ?t =
      Inr (?t\<lparr>remainingDistance := 0, turtle := setPos ?s 100 0\<rparr>)"
    by (subst moveStep_east_inside) simp_all
  have "moveLoop 400 (- 400) 300 (- 300) (pi / 2) ?t = Some (Inr (setPos ?s 100 0))"
    by (subst moveLoop_step [OF _ step]) (simp_all add: moveLoop_finished)
  then show ?thesis
    unfolding s
    by (simp add: goto_def moveTo_def Let_def distanceTo_def hypot_axis atan2_east
          defaultState_def setPos_def pushState_eq r)
qed

text \<open>
  C3. Wrap on, the turtle at the centre of a canvas of positive width, heading 90
  degrees (along +X), the log's tail at the turtle's position: \<open>forward\<close> of twice
  the canvas width returns and pushes five snapshots, twice an animated one at
  \<open>x = maxX\<close> followed by a teleport (not animated) at \<open>x = minX\<close>, and last the
  state the turtle started from, so the final X is the starting X.
\<close>

theorem wrap_twice:
  assumes W: "0 < canvasWidth s"
    and st: "x (state s) = 0" "y (state s) = 0" "angle (state s) = 90"
            "wrap (state s)" "animateMovement (state s)"
    and sy: "synced s"
  shows "forward s (2 * real (canvasWidth s)) =
           Some (Inr (s\<lparr>states := states s @
                        [(state s)\<lparr>x := real (canvasWidth s) / 2\<rparr>,
                         (state s)\<lparr>x := - real (canvasWidth s) / 2, animateMovement := False\<rparr>,
                         (state s)\<lparr>x := real (canvasWidth s) / 2\<rparr>,
                         (state s)\<lparr>x := - real (canvasWidth s) / 2, animateMovement := False\<rparr>,
                         state s]\<rparr>))"
proof -
  define w where "w = real (canvasWidth s)"
  define h where "h = real (canvasHeight s)"
  define e where "e = (state s)\<lparr>x := w / 2\<rparr>"
  define tl where "tl = (state s)\<lparr>x := - (w / 2), animateMovement := False\<rparr>"
  have w: "0 < w" using W by (simp add: w_def)
  have h: "0 \<le> h" by (simp add: h_def)
  have rw: "toFixed4 (w / 2) = w / 2" "toFixed4 (- (w / 2)) = - (w / 2)"
    using toFixed4_half [of "canvasWidth s"]
    by (simp_all add: w_def toFixed4_minus)
  have l0: "states s = [] \<or> x (last (states s)) = 0"
    using sy st by (auto simp: synced_def)
  obtain pd wd vi rd co bg sp cl ins where stE:
    "state s = \<lparr>x = 0, y = 0, angle = 90, penDown = pd, width = wd, visible = vi,
                redraw = rd, wrap = True, color = co, bgcolor = bg, speed = sp,
                clear = cl, animateMovement = True, instant = ins\<rparr>"
    using st by (cases "state s") auto
  define s1 where "s1 = s\<lparr>states := states s @ [e], state := e\<rparr>"
  define s2 where "s2 = s\<lparr>states := states s @ [e, tl], state := (state s)\<lparr>x := - (w / 2)\<rparr>\<rparr>"
  define s3 where "s3 = s\<lparr>states := states s @ [e, tl, e], state := e\<rparr>"
  define s4 where "s4 = s\<lparr>states := states s @ [e, tl, e, tl], state := (state s)\<lparr>x := - (w / 2)\<rparr>\<rparr>"
  define s5 where "s5 = s\<lparr>states := states s @ [e, tl, e, tl, state s]\<rparr>"
  have p1: "setPos s (w / 2) 0 = s1"
    using l0 w by (subst setPos_moved) (auto simp: rw s1_def e_def stE)
  have p2: "tp s1 (- (w / 2)) 0 = s2"
    using w by (subst tp_moved) (auto simp: rw s1_def s2_def e_def tl_def stE)
  have p3: "setPos s2 (w / 2) 0 = s3"
    using w by (subst setPos_moved) (auto simp: rw s2_def s3_def e_def tl_def stE)
  have p4: "tp s3 (- (w / 2)) 0 = s4"
    using w by (subst tp_moved) (auto simp: rw s3_def s4_def e_def tl_def stE)
  have p5: "setPos s4 0 0 = s5"
    using w by (subst setPos_moved) (auto simp: rw s4_def s5_def e_def tl_def stE)
  have w2: "wrap (state s2)" using st(4) by (simp add: s2_def)
  let ?loop = "moveLoop (w / 2) (- (w / 2)) (h / 2) (- (h / 2)) (pi / 2)"
  have i1: "?loop \<lparr>curX = 0, curY = 0, remainingDistance = 2 * w, turtle = s\<rparr>
          = ?loop \<lparr>curX = - (w / 2), curY = 0, remainingDistance = 3 * w / 2, turtle = s2\<rparr>"
    using w st(4) by (subst moveLoop_step, simp, subst moveStep_east) (simp_all add: p1 p2)
  have i2: "?loop \<lparr>curX = - (w / 2), curY = 0, remainingDistance = 3 * w / 2, turtle = s2\<rparr>
          = ?loop \<lparr>curX = - (w / 2), curY = 0, remainingDistance = w / 2, turtle = s4\<rparr>"
    using w w2
    by (subst moveLoop_step, simp, subst moveStep_east) (simp_all add: p3 p4)
  have i3: "?loop \<lparr>curX = - (w / 2), curY = 0, remainingDistance = w / 2, turtle = s4\<rparr>
          = ?loop \<lparr>curX = - (w / 2), curY = 0, remainingDistance = 0, turtle = s5\<rparr>"
    using w h
    by (subst moveLoop_step, simp, subst moveStep_east_inside) (simp_all add: p5)
  have i4: "?loop \<lparr>curX = - (w / 2), curY = 0, remainingDistance = 0, turtle = s5\<rparr>
          = Some (Inr s5)"
    by (simp add: moveLoop_finished)
  have tgt: "distanceTarget (state s) (2 * w) = (2 * w, 0)"
    using st by (simp add: distanceTarget_def degToRad_def)
  have "forward s (2 * w) = Some (Inr s5)"
    using w st
    by (simp add: forward_def tgt moveTo_def Let_def atan2_east distanceTo_def hypot_axis
          w_def [symmetric] h_def [symmetric] i1 i2 i3 i4)
  then show ?thesis
    by (simp add: s5_def e_def tl_def w_def)
qed

theorem wrap_twice_witness:
  "forward (setheading (newTurtle 800 600) 90) 1600 =
     Some (Inr \<lparr>states =
                  [defaultState, defaultState\<lparr>angle := 90\<rparr>,
                   defaultState\<lparr>angle := 90, x := 400\<rparr>,
                   defaultState\<lparr>angle := 90, x := - 400, animateMovement := False\<rparr>,
                   defaultState\<lparr>angle := 90, x := 400\<rparr>,
                   defaultState\<lparr>angle := 90, x := - 400, animateMovement := False\<rparr>,
                   defaultState\<lparr>angle := 90\<rparr>],
                state = defaultState\<lparr>angle := 90\<rparr>,
                canvasWidth = 800, canvasHeight = 600\<rparr>)"
proof -
  let ?s = "setheading (newTurtle 800 600) 90"
  have s: "?s = \<lparr>states = [defaultState, defaultState\<lparr>angle := 90\<rparr>],
                 state = defaultState\<lparr>angle := 90\<rparr>,
                 canvasWidth = 800, canvasHeight = 600\<rparr>"
    by (simp add: setheading_def newTurtle_def init_def pushState_eq defaultState_def)
  have "0 < canvasWidth ?s" "x (state ?s) = 0" "y (state ?s) = 0" "angle (state ?s) = 90"
    "wrap (state ?s)" "animateMovement (state ?s)" "synced ?s"
    by (simp_all add: s synced_def defaultState_def)
  from wrap_twice [OF this] show ?thesis
    by (simp add: s defaultState_def)
qed

subsection \<open>The divisors of the tracer\<close>

lemma xWrap_escape_iff:
  "xWrap cosAngle sinAngle cutBound otherBound t = Inl e \<longleftrightarrow> sinAngle = 0 \<and> e = NonFinite"
  by (auto simp: xWrap_def Let_def)

lemma yWrap_escape_iff:
  "yWrap cosAngle sinAngle cutBound otherBound t = Inl e \<longleftrightarrow> cosAngle = 0 \<and> e = NonFinite"
  by (auto simp: yWrap_def Let_def)

lemma moveStep_axisInside:
  assumes "axisInside maxX minX maxY minY a t"
  shows "\<exists>t'. moveStep maxX minX maxY minY a t = Inr t' \<and> axisInside maxX minX maxY minY a t'"
  using assms
  by (auto simp: axisInside_def moveStep_def xWrap_def yWrap_def noWrap_def Let_def)

lemma moveLoop_axisInside:
  "moveLoop maxX minX maxY minY a t = Some r \<Longrightarrow>
     axisInside maxX minX maxY minY a t \<longrightarrow> (\<forall>e. r \<noteq> Inl e)"
proof (induction rule: moveLoop.raw_induct [rotated 1, consumes 1])
  case (1 moveLoop maxX minX maxY minY a t r)
  show ?case
  proof
    assume inv: "axisInside maxX minX maxY minY a t"
    show "\<forall>e. r \<noteq> Inl e"
    proof (cases "0 < remainingDistance t")
      case False
      with 1(2) show ?thesis by auto
    next
      case True
      from moveStep_axisInside [OF inv] obtain t'
        where t': "moveStep maxX minX maxY minY a t = Inr t'"
          and inv': "axisInside maxX minX maxY minY a t'"
        by blast
      from True t' 1(2) have "moveLoop maxX minX maxY minY a t' = Some r" by simp
      from 1(1) [OF this] inv' show ?thesis by blast
    qed
  qed
qed

text \<open>
  C2 (as amended). For a move that starts at a position inside the canvas, the tracer
  never divides by zero: whenever the X-boundary branch is taken the sine of the travel
  angle is not 0, and whenever the Y-boundary branch is taken the cosine is not 0
  (\<open>xWrap\<close> and \<open>yWrap\<close> escape exactly on a zero divisor, and no escape occurs).
\<close>

theorem tracer_divisor_nonzero:
  assumes "\<bar>x (state s)\<bar> \<le> real (canvasWidth s) / 2"
    and "\<bar>y (state s)\<bar> \<le> real (canvasHeight s) / 2"
  shows "moveTo s tx ty \<noteq> Some (Inl e)
       \<and> forward s d \<noteq> Some (Inl e)
       \<and> backward s d \<noteq> Some (Inl e)
       \<and> goto s tx ty \<noteq> Some (Inl e)"
proof -
  have "moveTo s px py \<noteq> Some (Inl e)" for px py
  proof
    assume "moveTo s px py = Some (Inl e)"
    from this [unfolded moveTo_def Let_def, THEN moveLoop_axisInside] assms
    show False by (auto simp: axisInside_def)
  qed
  then show ?thesis
    by (simp add: forward_def backward_def goto_def Let_def)
qed

lemma toFixed4_500: "toFixed4 500 = 500"
  using toFixed4_half [of 1000] by simp

text \<open>
  Without that condition the claim fails. On an 800 by 600 canvas, with wrap off the
  turtle goes to \<open>(500, 0)\<close>, beyond \<open>maxX = 400\<close>; with wrap on again and heading
  0, \<open>forward(10)\<close> travels parallel to the Y axis, the test \<open>newX > maxX\<close> holds
  and \<open>xWrap\<close> divides by \<open>sinAngle = 0\<close>.
\<close>

theorem tracer_divisor_counterexample:
  "run (newTurtle 800 600) [Wrap False, Goto 500 0, Wrap True, Forward 10]
     = Some (Inl NonFinite)"
proof -
  define s1 where "s1 = wrap_cmd (newTurtle 800 600) False"
  define s2 where "s2 = setPos s1 500 0"
  define s3 where "s3 = wrap_cmd s2 True"
  have g: "goto s1 500 0 = Some (Inr s2)"
    unfolding goto_def s2_def
    by (rule moveTo_noWrap) (simp_all add: s1_def wrap_cmd_def newTurtle_def init_def defaultState_def)
  have st3: "x (state s3) = 500" "y (state s3) = 0" "angle (state s3) = 0" "wrap (state s3)"
    "canvasWidth s3 = 800" "canvasHeight s3 = 600"
    by (simp_all add: s3_def s2_def s1_def wrap_cmd_def setPos_def newTurtle_def init_def
          defaultState_def toFixed4_500)
  have step: "moveStep 400 (- 400) 300 (- 300) 0
                \<lparr>curX = 500, curY = 0, remainingDistance = 10, turtle = s3\<rparr> = Inl NonFinite"
    using st3 by (simp add: moveStep_def xWrap_def Let_def)
  have f: "forward s3 10 = Some (Inl NonFinite)"
    using st3
    by (simp add: forward_def distanceTarget_def degToRad_def moveTo_def Let_def atan2_def
          distanceTo_def hypot_def moveLoop_escape [OF _ step])
  show ?thesis
    using g f by (simp add: s1_def [symmetric] s3_def [symmetric])
qed

theorem tracer_divisor_nonzero_witness:
  "\<bar>x (state (right (newTurtle 800 600) 30))\<bar>
      \<le> real (canvasWidth (right (newTurtle 800 600) 30)) / 2
   \<and> \<bar>y (state (right (newTurtle 800 600) 30))\<bar>
      \<le> real (canvasHeight (right (newTurtle 800 600) 30)) / 2
   \<and> goto (right (newTurtle 800 600) 30) 100 0 =
       Some (Inr \<lparr>states = [defaultState, defaultState\<lparr>angle := 30\<rparr>,
                           defaultState\<lparr>angle := 30, x := 100\<rparr>],
                  state = defaultState\<lparr>angle := 30, x := 100\<rparr>,
                  canvasWidth = 800, canvasHeight = 600\<rparr>)
   \<and> goto (right (newTurtle 800 600) 30) 100 0 \<noteq> Some (Inl NonFinite)"
proof -
  have h: "\<bar>x (state (right (newTurtle 800 600) 30))\<bar>
              \<le> real (canvasWidth (right (newTurtle 800 600) 30)) / 2"
    "\<bar>y (state (right (newTurtle 800 600) 30))\<bar>
              \<le> real (canvasHeight (right (newTurtle 800 600) 30)) / 2"
    by (simp_all add: right_def newTurtle_def init_def defaultState_def)
  from tracer_divisor_nonzero [OF h, of 100 0 NonFinite 0] h goto_example
  show ?thesis by simp
qed

subsection \<open>\<open>goto\<close> and the heading\<close>

lemma headingKept_pushState:
  "headingKept a old s \<Longrightarrow> headingKept a old (pushState s)"
  by (auto simp: headingKept_def pushState_eq)

lemma headingKept_setPos:
  "headingKept a old s \<Longrightarrow> headingKept a old (setPos s px py)"
  unfolding setPos_def
  by (rule headingKept_pushState) (simp add: headingKept_def)

lemma headingKept_tp:
  "headingKept a old s \<Longrightarrow> headingKept a old (tp s px py)"
proof -
  assume h: "headingKept a old s"
  have "headingKept a old (s\<lparr>state := (state s)\<lparr>animateMovement := False\<rparr>\<rparr>)"
    using h by (simp add: headingKept_def)
  from headingKept_setPos [OF this, of px py] show ?thesis
    by (simp add: tp_def Let_def headingKept_def)
qed

lemma headingKept_moveTo:
  "moveTo s tx ty = Some (Inr s') \<Longrightarrow> headingKept a old s \<Longrightarrow> headingKept a old s'"
  by (erule moveTo_invariant [where Q = "headingKept a old"])
     (simp_all add: headingKept_setPos headingKept_tp)

lemma samePlace_setPos:
  "samePlace s u \<Longrightarrow> samePlace (setPos s px py) (setPos u px py)"
  by (simp add: samePlace_def setPos_def)

lemma samePlace_tp:
  "samePlace s u \<Longrightarrow> samePlace (tp s px py) (tp u px py)"
  by (simp add: samePlace_def tp_def setPos_def Let_def)

lemma moveStep_same:
  assumes "sameTrace t u"
  shows "rel_sum (=) sameTrace (moveStep maxX minX maxY minY d t) (moveStep maxX minX maxY minY d u)"
proof -
  have w: "wrap (state (turtle t)) = wrap (state (turtle u))"
    and c: "curX u = curX t" "curY u = curY t" "remainingDistance u = remainingDistance t"
    and p: "samePlace (turtle t) (turtle u)"
    using assms by (simp_all add: sameTrace_def samePlace_def)
  show ?thesis
    unfolding moveStep_def xWrap_def yWrap_def noWrap_def Let_def w c
    by (simp add: sameTrace_def c samePlace_setPos samePlace_tp p)
qed

lemma moveLoop_same:
  "moveLoop maxX minX maxY minY d t = Some r \<Longrightarrow>
     (\<forall>u. sameTrace t u \<longrightarrow>
        (\<exists>r'. moveLoop maxX minX maxY minY d u = Some r' \<and> rel_sum (=) samePlace r r'))"
proof (induction rule: moveLoop.raw_induct [rotated 1, consumes 1])
  case (1 f maxX minX maxY minY d t r)
  show ?case
  proof (intro allI impI)
    fix u
    assume tu: "sameTrace t u"
    then have rem: "remainingDistance u = remainingDistance t"
      and pl: "samePlace (turtle t) (turtle u)"
      by (simp_all add: sameTrace_def)
    note st = moveStep_same [OF tu, of maxX minX maxY minY d]
    show "\<exists>r'. moveLoop maxX minX maxY minY d u = Some r' \<and> rel_sum (=) samePlace r r'"
    proof (cases "0 < remainingDistance t")
      case False
      with 1(2) have "r = Inr (turtle t)" by simp
      moreover from False rem
      have "moveLoop maxX minX maxY minY d u = Some (Inr (turtle u))"
        by (simp add: moveLoop_finished)
      ultimately show ?thesis using pl by simp
    next
      case True
      then have posu: "0 < remainingDistance u" using rem by simp
      show ?thesis
      proof (cases "moveStep maxX minX maxY minY d t")
        case (Inl e)
        with True 1(2) have r: "r = Inl e" by simp
        from st Inl have "moveStep maxX minX maxY minY d u = Inl e"
          by (cases "moveStep maxX minX maxY minY d u") simp_all
        from moveLoop_escape [OF posu this] r show ?thesis by simp
      next
        case (Inr t')
        with True 1(2) have ft: "f maxX minX maxY minY d t' = Some r" by simp
        from st Inr obtain u' where u': "moveStep maxX minX maxY minY d u = Inr u'"
          and tu': "sameTrace t' u'"
          by (cases "moveStep maxX minX maxY minY d u") simp_all
        from 1(1) [OF ft] tu' obtain r'
          where "moveLoop maxX minX maxY minY d u' = Some r'" "rel_sum (=) samePlace r r'"
          by blast
        with moveLoop_step [OF posu u'] show ?thesis by simp
      qed
    qed
  qed
qed

text \<open>
  The loop uses the travel angle only through its sine and cosine, so any angle that
  points from the start to the target traces the same path as the bearing.
\<close>

lemma moveStep_direction:
  "sin b = sin a \<Longrightarrow> cos b = cos a
     \<Longrightarrow> moveStep maxX minX maxY minY b t = moveStep maxX minX maxY minY a t"
  by (simp add: moveStep_def)

lemma moveLoop_direction:
  "moveLoop maxX minX maxY minY a t = Some r \<Longrightarrow>
     (\<forall>b. sin b = sin a \<longrightarrow> cos b = cos a \<longrightarrow> moveLoop maxX minX maxY minY b t = Some r)"
proof (induction rule: moveLoop.raw_induct [rotated 1, consumes 1])
  case (1 f maxX minX maxY minY a t r)
  show ?case
  proof (intro allI impI)
    fix b
    assume sc: "sin b = sin a" "cos b = cos a"
    note st = moveStep_direction [OF sc, of maxX minX maxY minY t]
    show "moveLoop maxX minX maxY minY b t = Some r"
    proof (cases "0 < remainingDistance t")
      case False
      with 1(2) show ?thesis by (simp add: moveLoop_finished)
    next
      case True
      show ?thesis
      proof (cases "moveStep maxX minX maxY minY a t")
        case (Inl e)
        with True 1(2) have "r = Inl e" by simp
        with moveLoop_escape [OF True st [unfolded Inl]] show ?thesis by simp
      next
        case (Inr t')
        with True 1(2) have "f maxX minX maxY minY a t' = Some r" by simp
        from 1(1) [OF this] sc have "moveLoop maxX minX maxY minY b t' = Some r" by blast
        with moveLoop_step [OF True st [unfolded Inr]] show ?thesis by simp
      qed
    qed
  qed
qed

text \<open>
  With wrap off, or with the target inside the canvas, the first candidate point is the
  target and no boundary test holds: the move is one \<open>_setPos\<close> at the target.
\<close>

lemma moveTo_reaches:
  assumes ne: "tx \<noteq> x (state s) \<or> ty \<noteq> y (state s)"
    and ins: "\<not> wrap (state s)
              \<or> \<bar>tx\<bar> \<le> real (canvasWidth s) / 2 \<and> \<bar>ty\<bar> \<le> real (canvasHeight s) / 2"
  shows "moveTo s tx ty = Some (Inr (setPos s tx ty))"
proof -
  define a where "a = atan2 (tx - x (state s)) (ty - y (state s))"
  define t where "t = \<lparr>curX = x (state s), curY = y (state s),
                       remainingDistance = distanceTo (state s) tx ty, turtle = s\<rparr>"
  have ne': "tx - x (state s) \<noteq> 0 \<or> ty - y (state s) \<noteq> 0" using ne by simp
  have pos: "0 < remainingDistance t"
    using hypot_pos [OF ne'] by (simp add: t_def distanceTo_def)
  have step: "moveStep (real (canvasWidth s) / 2) (- real (canvasWidth s) / 2)
                (real (canvasHeight s) / 2) (- real (canvasHeight s) / 2) a t
                = Inr (t\<lparr>remainingDistance := 0, turtle := setPos s tx ty\<rparr>)"
    using ins bearing_reaches [OF ne']
    by (auto simp: moveStep_def Let_def noWrap_def t_def a_def distanceTo_def)
  have "moveLoop (real (canvasWidth s) / 2) (- real (canvasWidth s) / 2)
          (real (canvasHeight s) / 2) (- real (canvasHeight s) / 2) a t
          = Some (Inr (setPos s tx ty))"
    by (simp only: moveLoop_step [OF pos step]) (simp add: moveLoop_finished)
  then show ?thesis
    by (simp only: moveTo_def Let_def a_def t_def)
qed

text \<open>
  C7. When \<open>goto(x, y)\<close> returns, \<open>heading()\<close> is what it was before the call, and
  every snapshot the call has pushed carries that angle. The direction of travel is the
  bearing from the current position to the target and owes nothing to the facing:
  \<^item> from the same place with any other facing \<open>a\<close>, \<open>goto\<close> returns as well, at the
    same position, and the heading is still \<open>a\<close>;
  \<^item> the bearing \<open>atan2 (px - x) (py - y)\<close> points at the target (the whole distance
    along it leads from the current position to the target), and tracing along any
    angle that points at the target gives the result of \<open>goto\<close>;
  \<^item> with wrap off, or with the target inside the canvas, a \<open>goto\<close> to another place
    is one \<open>_setPos\<close> at the target, so the turtle ends at the target (rounded to 4
    decimals) whatever its facing.
\<close>

theorem goto_keeps_heading:
  assumes "goto s px py = Some (Inr s')"
  shows "heading s' = heading s
       \<and> (\<exists>new. states s' = states s @ new \<and> (\<forall>st \<in> set new. angle st = heading s))
       \<and> (\<forall>a. \<exists>s''. goto (s\<lparr>state := (state s)\<lparr>angle := a\<rparr>\<rparr>) px py = Some (Inr s'')
                    \<and> position s'' = position s' \<and> heading s'' = a)
       \<and> sin (atan2 (px - x (state s)) (py - y (state s))) * distanceTo (state s) px py
             = px - x (state s)
       \<and> cos (atan2 (px - x (state s)) (py - y (state s))) * distanceTo (state s) px py
             = py - y (state s)
       \<and> (\<forall>b. sin b * distanceTo (state s) px py = px - x (state s)
              \<longrightarrow> cos b * distanceTo (state s) px py = py - y (state s)
              \<longrightarrow> moveLoop (real (canvasWidth s) / 2) (- real (canvasWidth s) / 2)
                    (real (canvasHeight s) / 2) (- real (canvasHeight s) / 2) b
                    \<lparr>curX = x (state s), curY = y (state s),
                     remainingDistance = distanceTo (state s) px py, turtle = s\<rparr>
                  = Some (Inr s'))
       \<and> ((px \<noteq> x (state s) \<or> py \<noteq> y (state s))
            \<longrightarrow> (\<not> wrap (state s)
                 \<or> \<bar>px\<bar> \<le> real (canvasWidth s) / 2 \<and> \<bar>py\<bar> \<le> real (canvasHeight s) / 2)
            \<longrightarrow> s' = setPos s px py \<and> position s' = (toFixed4 px, toFixed4 py))"
proof -
  let ?a = "atan2 (px - x (state s)) (py - y (state s))"
  let ?d = "distanceTo (state s) px py"
  let ?L = "moveLoop (real (canvasWidth s) / 2) (- real (canvasWidth s) / 2)
              (real (canvasHeight s) / 2) (- real (canvasHeight s) / 2)"
  let ?B = "?L ?a"
  let ?t = "\<lambda>v. \<lparr>curX = x (state s), curY = y (state s),
                  remainingDistance = distanceTo (state s) px py, turtle = v\<rparr>"
  have run: "?B (?t s) = Some (Inr s')"
    using assms by (simp add: goto_def moveTo_def Let_def)
  have k0: "headingKept (heading s) (states s) s"
    by (simp add: headingKept_def heading_def)
  have mv: "moveTo s px py = Some (Inr s')"
    using assms by (simp add: goto_def)
  from headingKept_moveTo [OF mv k0] have k: "headingKept (heading s) (states s) s'" .
  have facing: "\<exists>s''. goto (s\<lparr>state := (state s)\<lparr>angle := a\<rparr>\<rparr>) px py = Some (Inr s'')
                    \<and> position s'' = position s' \<and> heading s'' = a" for a
  proof -
    let ?u = "s\<lparr>state := (state s)\<lparr>angle := a\<rparr>\<rparr>"
    have "sameTrace (?t s) (?t ?u)"
      by (simp add: sameTrace_def samePlace_def)
    with moveLoop_same [OF run] obtain r'
      where r': "?B (?t ?u) = Some r'" "rel_sum (=) samePlace (Inr s') r'"
      by blast
    then obtain s'' where s'': "r' = Inr s''" "samePlace s' s''"
      by (cases r') simp_all
    have g: "goto ?u px py = Some (Inr s'')"
      using r'(1) s''(1) by (simp add: goto_def moveTo_def Let_def distanceTo_def)
    have "headingKept a (states ?u) ?u"
      by (simp add: headingKept_def)
    with g have "headingKept a (states ?u) s''"
      by (auto simp: goto_def intro: headingKept_moveTo)
    then have "heading s'' = a" by (simp add: headingKept_def heading_def)
    with g s''(2) show ?thesis
      by (auto simp: samePlace_def position_def)
  qed
  have "sin ?a * ?d = px - x (state s) \<and> cos ?a * ?d = py - y (state s)"
  proof (cases "px - x (state s) \<noteq> 0 \<or> py - y (state s) \<noteq> 0")
    case True
    from bearing_reaches [OF True] show ?thesis
      by (simp add: distanceTo_def)
  next
    case False
    then show ?thesis
      by (simp add: distanceTo_def hypot_def)
  qed
  then have points: "sin ?a * ?d = px - x (state s)" "cos ?a * ?d = py - y (state s)"
    by simp_all
  have any: "?L b (?t s) = Some (Inr s')"
    if b: "sin b * ?d = px - x (state s)" "cos b * ?d = py - y (state s)" for b
  proof (cases "?d = 0")
    case True
    with run show ?thesis by (simp add: moveLoop_finished)
  next
    case False
    from b(1) points(1) have "sin b * ?d = sin ?a * ?d" by simp
    with False have sb: "sin b = sin ?a" by simp
    from b(2) points(2) have "cos b * ?d = cos ?a * ?d" by simp
    with False have "cos b = cos ?a" by simp
    with sb moveLoop_direction [OF run] show ?thesis by blast
  qed
  have direct: "s' = setPos s px py \<and> position s' = (toFixed4 px, toFixed4 py)"
    if "px \<noteq> x (state s) \<or> py \<noteq> y (state s)"
      and "\<not> wrap (state s)
           \<or> \<bar>px\<bar> \<le> real (canvasWidth s) / 2 \<and> \<bar>py\<bar> \<le> real (canvasHeight s) / 2"
  proof -
    from moveTo_reaches [OF that] mv have "s' = setPos s px py" by simp
    then show ?thesis by (simp add: position_def setPos_def)
  qed
  from k have c1: "heading s' = heading s"
    and c2: "\<exists>new. states s' = states s @ new \<and> (\<forall>st \<in> set new. angle st = heading s)"
    by (simp_all add: headingKept_def heading_def)
  from c1 c2 facing points any direct show ?thesis
    by blast
qed

theorem goto_keeps_heading_witness:
  "goto (right (newTurtle 800 600) 30) 30 40 =
     Some (Inr \<lparr>states = [defaultState, defaultState\<lparr>angle := 30\<rparr>,
                         defaultState\<lparr>angle := 30, x := 30, y := 40\<rparr>],
                state = defaultState\<lparr>angle := 30, x := 30, y := 40\<rparr>,
                canvasWidth = 800, canvasHeight = 600\<rparr>)
   \<and> heading (right (newTurtle 800 600) 30) = 30
   \<and> heading \<lparr>states = [defaultState, defaultState\<lparr>angle := 30\<rparr>,
                         defaultState\<lparr>angle := 30, x := 30, y := 40\<rparr>],
                state = defaultState\<lparr>angle := 30, x := 30, y := 40\<rparr>,
                canvasWidth = 800, canvasHeight = 600\<rparr> = 30
   \<and> position \<lparr>states = [defaultState, defaultState\<lparr>angle := 30\<rparr>,
                         defaultState\<lparr>angle := 30, x := 30, y := 40\<rparr>],
                state = defaultState\<lparr>angle := 30, x := 30, y := 40\<rparr>,
                canvasWidth = 800, canvasHeight = 600\<rparr> = (30, 40)
   \<and> sin (atan2 30 40) * 50 = 30
   \<and> cos (atan2 30 40) * 50 = 40"
proof -
  let ?s = "\<lparr>states = [defaultState, defaultState\<lparr>angle := 30\<rparr>],
            state = defaultState\<lparr>angle := 30\<rparr>,
            canvasWidth = 800, canvasHeight = 600\<rparr>"
  let ?r = "\<lparr>states = [defaultState, defaultState\<lparr>angle := 30\<rparr>,
                      defaultState\<lparr>angle := 30, x := 30, y := 40\<rparr>],
            state = defaultState\<lparr>angle := 30, x := 30, y := 40\<rparr>,
            canvasWidth = 800, canvasHeight = 600\<rparr>"
  have s: "right (newTurtle 800 600) 30 = ?s"
    by (simp add: right_def newTurtle_def init_def pushState_eq defaultState_def)
  have r: "toFixed4 30 = 30" "toFixed4 40 = 40"
    using toFixed4_half [of 60] toFixed4_half [of 80] by simp_all
  have "moveTo ?s 30 40 = Some (Inr (setPos ?s 30 40))"
    by (rule moveTo_reaches) (simp_all add: defaultState_def)
  then have g: "goto (right (newTurtle 800 600) 30) 30 40 = Some (Inr ?r)"
    by (simp add: s goto_def setPos_def pushState_eq r defaultState_def)
  have d: "distanceTo (state (right (newTurtle 800 600) 30)) 30 40 = 50"
  proof -
    have "(30::real)\<^sup>2 + 40\<^sup>2 = 50\<^sup>2" by simp
    then have "hypot 30 40 = 50"
      unfolding hypot_def using real_sqrt_abs [of 50] by simp
    then show ?thesis by (simp add: s distanceTo_def defaultState_def)
  qed
  have h: "heading (right (newTurtle 800 600) 30) = 30"
    by (simp add: s heading_def)
  have p: "x (state (right (newTurtle 800 600) 30)) = 0"
    "y (state (right (newTurtle 800 600) 30)) = 0"
    by (simp_all add: s defaultState_def)
  note th = goto_keeps_heading [OF g]
  from th [THEN conjunct1] h have hd: "heading ?r = 30"
    by simp
  from th [THEN conjunct2, THEN conjunct2, THEN conjunct2, THEN conjunct1]
  have sn: "sin (atan2 30 40) * 50 = 30"
    by (simp add: d p)
  from th [THEN conjunct2, THEN conjunct2, THEN conjunct2, THEN conjunct2, THEN conjunct1]
  have cs: "cos (atan2 30 40) * 50 = 40"
    by (simp add: d p)
  have away: "30 \<noteq> x (state (right (newTurtle 800 600) 30))
              \<or> 40 \<noteq> y (state (right (newTurtle 800 600) 30))"
    by (simp add: p)
  have inside: "\<not> wrap (state (right (newTurtle 800 600) 30))
                \<or> \<bar>30\<bar> \<le> real (canvasWidth (right (newTurtle 800 600) 30)) / 2
                  \<and> \<bar>40\<bar> \<le> real (canvasHeight (right (newTurtle 800 600) 30)) / 2"
    by (simp add: s)
  from th [THEN conjunct2, THEN conjunct2, THEN conjunct2, THEN conjunct2, THEN conjunct2,
           THEN conjunct2, rule_format, OF away inside]
  have ps: "position ?r = (toFixed4 30, toFixed4 40)"
    by (rule conjunct2)
  from g h hd sn cs ps show ?thesis
    by (simp add: r)
qed

subsection \<open>Headings\<close>

text \<open>
  C9. Angles are stored as given: after \<open>setheading(450)\<close>, \<open>heading()\<close> returns 450,
  and \<open>right\<close> and \<open>left\<close> add and subtract their argument with no reduction
  modulo 360 (from 350, \<open>right(20)\<close> gives 370; from 10, \<open>left(20)\<close> gives -10).
\<close>

theorem heading_unnormalized:
  "heading (setheading s 450) = 450
   \<and> heading (right s d) = heading s + d
   \<and> heading (left s d) = heading s - d
   \<and> heading (right (setheading s 350) 20) = 370
   \<and> heading (left (setheading s 10) 20) = - 10"
  by (simp add: heading_def setheading_def right_def left_def)

theorem heading_unnormalized_witness:
  "heading (setheading (newTurtle 800 600) 450) = 450
   \<and> heading (right (newTurtle 800 600) 720) = 720
   \<and> heading (left (newTurtle 800 600) 90) = - 90"
  using heading_unnormalized [of "newTurtle 800 600" 720]
        heading_unnormalized [of "newTurtle 800 600" 90]
  by (simp add: heading_def newTurtle_def init_def defaultState_def)

subsection \<open>Reset\<close>

text \<open>
  C10. \<open>reset()\<close> throws away whatever the log held and leaves exactly two entries,
  the default state and the default state with the clear flag set; the current state
  is the default state again, with the clear flag off.
\<close>

theorem reset_log:
  "states (reset s) = [defaultState, defaultState\<lparr>clear := True\<rparr>]
   \<and> state (reset s) = defaultState
   \<and> clear (state (reset s)) = False"
  by (simp add: reset_def clear_cmd_def init_def pushState_eq defaultState_def Let_def)

theorem reset_log_witness:
  "length (states (reset (penup (right (newTurtle 800 600) 30)))) = 2
   \<and> clear (states (reset (penup (right (newTurtle 800 600) 30))) ! 0) = False
   \<and> clear (states (reset (penup (right (newTurtle 800 600) 30))) ! 1) = True
   \<and> clear (state (reset (penup (right (newTurtle 800 600) 30)))) = False"
  using reset_log [of "penup (right (newTurtle 800 600) 30)"]
  by (simp add: defaultState_def)

subsection \<open>Playback\<close>

text \<open>
  C6. Playback drains the log: after \<open>done\<close> the log is empty, a second \<open>done\<close>
  with no command in between goes through no entry, writes nothing to the canvases
  and leaves the log empty, and so does \<open>done\<close> on any empty log. (A non-empty log
  does produce canvas writes.)
\<close>

theorem done_drains:
  "states (snd (done_cmd s)) = []
   \<and> done_cmd (snd (done_cmd s)) = ([], snd (done_cmd s))
   \<and> done_cmd (s\<lparr>states := []\<rparr>) = ([], s\<lparr>states := []\<rparr>)
   \<and> (states s \<noteq> [] \<longrightarrow> fst (done_cmd s) \<noteq> [])"
  by (cases "states s") (simp_all add: done_cmd_def Let_def)

theorem done_drains_witness:
  "fst (done_cmd (newTurtle 800 600)) =
     [LineWidth 1, StrokeStyle ''black'', BackgroundColor [], Draw defaultState,
      Timeout (1000 / 60)]
   \<and> states (snd (done_cmd (newTurtle 800 600))) = []
   \<and> fst (done_cmd (snd (done_cmd (newTurtle 800 600)))) = []
   \<and> states (snd (done_cmd (snd (done_cmd (newTurtle 800 600))))) = []"
  using done_drains [of "newTurtle 800 600"]
  by (simp add: done_cmd_def newTurtle_def init_def pushState_eq drawIf_def defaultState_def)

subsection \<open>Named speeds\<close>

lemma speed_named:
  "speed_cmd s (Name ''fastest'') = Inr (setSpeed s 0)"
  "speed_cmd s (Name ''fast'') = Inr (setSpeed s 10)"
  "speed_cmd s (Name ''normal'') = Inr (setSpeed s 6)"
  "speed_cmd s (Name ''slow'') = Inr (setSpeed s 3)"
  "speed_cmd s (Name ''slowest'') = Inr (setSpeed s 1)"
  by (simp_all add: SPEEDS_get_def SPEEDS_def)

lemma speed_unknown:
  "n \<notin> fst ` set SPEEDS \<Longrightarrow> n \<notin> set objectPrototype
     \<Longrightarrow> speed_cmd s (Name n) = Inr (setSpeed s 6)"
  by (simp add: SPEEDS_get_def map_of_eq_None_iff [THEN iffD2])

text \<open>
  In the older copy the lookup of \<open>fastest\<close> finds 0, which \<open>||\<close> replaces by
  \<open>SPEEDS.normal\<close>.
\<close>

lemma speed_part_000_fastest:
  "speed_part_000 s (Name ''fastest'') = Inr (setSpeed s 6)"
  by (simp add: SPEEDS_get_def SPEEDS_def)

text \<open>
  C8. In \<open>src/turtle.js\<close> the five named levels are stored as 0, 10, 6, 3 and 1
  (\<open>speed_named\<close>; \<open>fastest\<close> stores 0), and a name found neither in \<open>SPEEDS\<close>
  nor in \<open>Object.prototype\<close> is stored as 6 (\<open>speed_unknown\<close>). The name
  \<open>constructor\<close> is no speed level, but \<open>SPEEDS['constructor']\<close> is the inherited
  function, not \<open>undefined\<close>: the fallback is skipped and the speed stored is not 6.
\<close>

theorem speed_inherited_name:
  "SPEEDS_get ''constructor'' = Object ''constructor''
   \<and> speed_cmd (newTurtle 800 600) (Name ''constructor'')
       = Inl (NonNumeric ''constructor'')
   \<and> speed_cmd (newTurtle 800 600) (Name ''constructor'')
       \<noteq> Inr (setSpeed (newTurtle 800 600) 6)"
  by (simp add: SPEEDS_get_def SPEEDS_def objectPrototype_def)

end
